theory Spec2Isabelle
  imports Complex_Main
begin

section \<open>JavaScript values used by the progress logger\<close>

text \<open>
  The logger of \<open>processFiles\<close> computes \<^verbatim>\<open>parseInt(m.progress.toString()) * 100\<close>.
  A JavaScript Number is modelled by the decimal that \<^verbatim>\<open>Number::toString\<close> prints: the
  standard defines the printed form from integers \<open>s\<close>, \<open>n\<close>, \<open>k\<close> with \<open>k\<close> the number of
  decimal digits of \<open>s\<close> and the value \<open>s * 10 ^ (n - k)\<close>. \<open>Finite neg s n\<close> is that number
  (negated when \<open>neg\<close>); \<open>s = 0\<close> is zero.
\<close>

datatype jsnum = NaN | Infinity bool | Finite bool nat int

definition digit_char :: "nat \<Rightarrow> char" where
  "digit_char d = char_of (48 + d)"

text \<open>The decimal digits of a natural number, most significant first.\<close>

function nat_toString :: "nat \<Rightarrow> string" where
  "nat_toString n = (if n < 10 then [digit_char n]
                     else nat_toString (n div 10) @ [digit_char (n mod 10)])"
  by pat_completeness auto
termination
  by (relation "measure (\<lambda>n. n)") auto

declare nat_toString.simps [simp del]

text \<open>The mathematical value of a number, where it has one.\<close>

definition num_value :: "jsnum \<Rightarrow> real option" where
  "num_value x = (case x of
       NaN \<Rightarrow> None
     | Infinity neg \<Rightarrow> None
     | Finite neg s n \<Rightarrow>
         (let k = int (length (nat_toString s));
              v = (if k \<le> n then real s * 10 ^ nat (n - k) else real s / 10 ^ nat (k - n))
          in Some (if neg then - v else v)))"

text \<open>\<^verbatim>\<open>Number.prototype.toString()\<close> with radix 10, step by step as in ECMA-262.\<close>

definition toString :: "jsnum \<Rightarrow> string" where
  "toString x = (case x of
       NaN \<Rightarrow> ''NaN''
     | Infinity neg \<Rightarrow> (if neg then ''-Infinity'' else ''Infinity'')
     | Finite neg s n \<Rightarrow>
         (if s = 0 then ''0''
          else
            (let ds = nat_toString s;
                 k = int (length ds);
                 e = n - 1;
                 body =
                   (if k \<le> n \<and> n \<le> 21 then ds @ replicate (nat (n - k)) (CHR ''0'')
                    else if 0 < n \<and> n \<le> 21 then take (nat n) ds @ ''.'' @ drop (nat n) ds
                    else if - 6 < n \<and> n \<le> 0 then ''0.'' @ replicate (nat (- n)) (CHR ''0'') @ ds
                    else (if k = 1 then ds else take 1 ds @ ''.'' @ drop 1 ds)
                         @ ''e'' @ (if e < 0 then ''-'' else ''+'') @ nat_toString (nat \<bar>e\<bar>))
             in (if neg then ''-'' else []) @ body)))"

text \<open>
  \<^verbatim>\<open>parseInt(string)\<close> with no radix: leading white space is skipped, a sign is read,
  a \<^verbatim>\<open>0x\<close> prefix selects radix 16, and the longest prefix of digits is converted; no
  digit at all gives \<open>NaN\<close>, here \<open>None\<close>. The result is the mathematical integer (the
  rounding to a double, which is exact below \<open>2 ^ 53\<close>, is not modelled, and \<open>-0\<close> is \<open>0\<close>).
\<close>

definition is_space :: "char \<Rightarrow> bool" where
  "is_space c = (of_char c \<in> {9, 10, 11, 12, 13, 32 :: nat})"

definition digit_value :: "char \<Rightarrow> nat option" where
  "digit_value c =
     (let v = (of_char c :: nat) in
      if 48 \<le> v \<and> v \<le> 57 then Some (v - 48)
      else if 97 \<le> v \<and> v \<le> 122 then Some (v - 87)
      else if 65 \<le> v \<and> v \<le> 90 then Some (v - 55)
      else None)"

definition is_digit :: "nat \<Rightarrow> char \<Rightarrow> bool" where
  "is_digit R c = (case digit_value c of None \<Rightarrow> False | Some v \<Rightarrow> v < R)"

definition digits_value :: "nat \<Rightarrow> string \<Rightarrow> nat" where
  "digits_value R Z = foldl (\<lambda>acc c. acc * R + the (digit_value c)) 0 Z"

definition parseInt :: "string \<Rightarrow> int option" where
  "parseInt inputString =
     (let S = dropWhile is_space inputString;
          sign = (if S \<noteq> [] \<and> hd S = CHR ''-'' then - 1 else (1::int));
          S = (if S \<noteq> [] \<and> (hd S = CHR ''+'' \<or> hd S = CHR ''-'') then tl S else S);
          hex = (take 2 S = ''0x'' \<or> take 2 S = ''0X'');
          R = (if hex then 16 else 10);
          S = (if hex then drop 2 S else S);
          Z = takeWhile (is_digit R) S
      in if Z = [] then None else Some (sign * int (digits_value R Z)))"

text \<open>Multiplication of a \<open>parseInt\<close> result by an integer constant; \<open>NaN\<close> is absorbing.\<close>

definition js_times :: "int option \<Rightarrow> int \<Rightarrow> int option" where
  "js_times x c = map_option (\<lambda>v. v * c) x"

section \<open>Files, the rasterizer and the recognition engine\<close>

text \<open>
  A queued file carries its name, its declared MIME type and its bytes. The thrown value of
  a rejected promise or a \<^verbatim>\<open>throw\<close> is an \<open>exn\<close>.
\<close>

datatype exn = Exn string

record File =
  file_name :: string
  file_type :: string
  file_data :: string

text \<open>The argument of \<^verbatim>\<open>worker.recognize\<close>: a file, or the PNG data URL of a canvas.\<close>

datatype image = FileImage File | DataURL string

text \<open>A progress event of the engine, \<^verbatim>\<open>{status, progress}\<close>.\<close>

record message =
  m_status :: string
  m_progress :: jsnum

record pdf =
  pdf_source :: string
  numPages :: nat

datatype page = Page string nat

record viewport =
  height :: rat
  width :: rat

record canvas =
  canvas_height :: rat
  canvas_width :: rat
  pixels :: string

text \<open>
  Every call that \<open>processFiles\<close> makes to a collaborator (the engine, the rasterizer, the
  URL store, the console) is logged, in program order.
\<close>

datatype call =
    CreateWorker
  | LoadLanguage string
  | Initialize string
  | Recognize image
  | Terminate
  | CreateObjectURL File
  | RevokeObjectURL string
  | GetDocument string
  | GetPage pdf nat
  | GetViewport page rat
  | Render page canvas viewport
  | ToDataURL canvas string
  | ConsoleError string exn

text \<open>
  The collaborators are parameters of the model. An awaited promise either resolves
  (\<open>Inr\<close>) or rejects (\<open>Inl\<close>); an engine job also delivers the progress events it emits
  to the logger while it runs. Each collaborator is a function of its arguments: the same
  call has the same outcome throughout a run, whatever was called before it.
\<close>

record env =
  createObjectURL :: "File \<Rightarrow> string"
  getDocument :: "string \<Rightarrow> exn + pdf"
  getPage :: "pdf \<Rightarrow> nat \<Rightarrow> exn + page"
  getViewport :: "page \<Rightarrow> rat \<Rightarrow> viewport"
  render :: "page \<Rightarrow> canvas \<Rightarrow> viewport \<Rightarrow> exn + canvas"
  toDataURL :: "canvas \<Rightarrow> string \<Rightarrow> string"
  createWorker :: "message list \<times> (exn + unit)"
  loadLanguage :: "string \<Rightarrow> message list \<times> (exn + unit)"
  initialize :: "string \<Rightarrow> message list \<times> (exn + unit)"
  recognize :: "image \<Rightarrow> message list \<times> (exn + string)"
  terminate :: "message list \<times> (exn + unit)"

section \<open>The component state and \<open>processFiles\<close>\<close>

text \<open>
  The React state of \<open>App\<close> that \<open>processFiles\<close> writes, and the log of calls. The
  \<open>progress\<close> number is an integer or \<open>NaN\<close> (\<open>None\<close>).
\<close>

record state =
  isProcessing :: bool
  results :: string
  progress :: "int option"
  error :: "string option"
  calls :: "call list"

definition log_call :: "call \<Rightarrow> state \<Rightarrow> state" where
  "log_call c st = st\<lparr>calls := calls st @ [c]\<rparr>"

text \<open>
  The \<open>logger\<close> option given to \<open>createWorker\<close>:
  \<^verbatim>\<open>if (m.status === 'recognizing text') setProgress(parseInt(m.progress.toString()) * 100)\<close>.
\<close>

definition logger :: "message \<Rightarrow> state \<Rightarrow> state" where
  "logger m st =
     (if m_status m = ''recognizing text''
      then st\<lparr>progress := js_times (parseInt (toString (m_progress m))) 100\<rparr>
      else st)"

definition emit :: "message list \<Rightarrow> state \<Rightarrow> state" where
  "emit ms st = foldl (\<lambda>s m. logger m s) st ms"

text \<open>One awaited job of the worker: the call is logged, its events reach the logger.\<close>

definition worker_job :: "call \<Rightarrow> message list \<times> (exn + 'a) \<Rightarrow> state \<Rightarrow> (exn + 'a) \<times> state" where
  "worker_job c reply st = (snd reply, emit (fst reply) (log_call c st))"

definition processImage :: "env \<Rightarrow> File \<Rightarrow> state \<Rightarrow> (exn + string) \<times> state" where
  "processImage env file st =
     worker_job (Recognize (FileImage file)) (recognize env (FileImage file)) st"

definition scale :: rat where
  "scale = 3 / 2"

text \<open>
  The template \<^verbatim>\<open>`Page ${i}:\n${pageText.data.text}\n\n`\<close>; the loop counter is an integer,
  which \<^verbatim>\<open>Number::toString\<close> prints as its decimal digits (below \<open>10 ^ 21\<close>).
\<close>

definition page_label :: "nat \<Rightarrow> string \<Rightarrow> string" where
  "page_label i pageText =
     ''Page '' @ nat_toString i @ '':\<newline>'' @ pageText @ ''\<newline>\<newline>''"

text \<open>
  The body of the loop of \<open>processPDF\<close> for page \<open>i\<close>, up to the recognition of the
  rendered canvas; it yields \<^verbatim>\<open>pageText.data.text\<close>.
\<close>

definition page_body :: "env \<Rightarrow> pdf \<Rightarrow> nat \<Rightarrow> state \<Rightarrow> (exn + string) \<times> state" where
  "page_body env doc i st =
     (let st1 = log_call (GetPage doc i) st in
      case getPage env doc i of
        Inl e \<Rightarrow> (Inl e, st1)
      | Inr page \<Rightarrow>
          (let vp = getViewport env page scale;
               st2 = log_call (GetViewport page scale) st1;
               cv = \<lparr>canvas_height = height vp, canvas_width = width vp, pixels = []\<rparr>;
               st3 = log_call (Render page cv vp) st2
           in case render env page cv vp of
                Inl e \<Rightarrow> (Inl e, st3)
              | Inr drawn \<Rightarrow>
                  (let url = toDataURL env drawn ''image/png'';
                       st4 = log_call (ToDataURL drawn ''image/png'') st3
                   in worker_job (Recognize (DataURL url)) (recognize env (DataURL url)) st4)))"

text \<open>
  The loop of \<open>processPDF\<close>, \<^verbatim>\<open>for (let i = 1; i <= pdf.numPages; i++)\<close>, from page \<open>i\<close> on
  with the text accumulated so far. An error thrown in the body leaves the loop.
\<close>

function pages_loop :: "env \<Rightarrow> pdf \<Rightarrow> nat \<Rightarrow> string \<Rightarrow> state \<Rightarrow> (exn + string) \<times> state" where
  "pages_loop env doc i text st =
     (if i \<le> numPages doc then
        (case page_body env doc i st of
           (Inl e, st1) \<Rightarrow> (Inl e, st1)
         | (Inr pageText, st1) \<Rightarrow>
             pages_loop env doc (i + 1) (text @ page_label i pageText) st1)
      else (Inr text, st))"
  by pat_completeness auto
termination
  by (relation "measure (\<lambda>(env, doc, i, text, st). Suc (numPages doc) - i)") auto

declare pages_loop.simps [simp del]

definition processPDF :: "env \<Rightarrow> File \<Rightarrow> state \<Rightarrow> (exn + string) \<times> state" where
  "processPDF env file st =
     (let fileURL = createObjectURL env file;
          st1 = log_call (CreateObjectURL file) st;
          st2 = log_call (GetDocument fileURL) st1
      in case getDocument env fileURL of
           Inl e \<Rightarrow> (Inl e, st2)
         | Inr doc \<Rightarrow>
             (case pages_loop env doc 1 [] st2 of
                (Inl e, st3) \<Rightarrow> (Inl e, st3)
              | (Inr text, st3) \<Rightarrow> (Inr text, log_call (RevokeObjectURL fileURL) st3)))"

text \<open>The body of the inner \<^verbatim>\<open>try\<close>: the branch on \<^verbatim>\<open>file.type\<close>.\<close>

definition process_file :: "env \<Rightarrow> File \<Rightarrow> state \<Rightarrow> (exn + string) \<times> state" where
  "process_file env file st =
     (if file_type file = ''application/pdf'' then processPDF env file st
      else processImage env file st)"

definition failure_message :: string where
  "failure_message =
     ''Error: Unable to process this file. It may be corrupted or in an unsupported format.''"

definition file_block :: "File \<Rightarrow> string \<Rightarrow> string" where
  "file_block file body =
     ''File: '' @ file_name file @ ''\<newline>\<newline>'' @ body @ ''\<newline>\<newline>''"

text \<open>The loop \<^verbatim>\<open>for (const file of files)\<close> with its \<^verbatim>\<open>try\<close>/\<^verbatim>\<open>catch\<close> around each file.\<close>

fun files_loop :: "env \<Rightarrow> File list \<Rightarrow> string \<Rightarrow> state \<Rightarrow> string \<times> state" where
  "files_loop env [] combinedResult st = (combinedResult, st)"
| "files_loop env (file # rest) combinedResult st =
     (case process_file env file st of
        (Inr text, st1) \<Rightarrow>
          files_loop env rest (combinedResult @ file_block file text) st1
      | (Inl fileError, st1) \<Rightarrow>
          files_loop env rest (combinedResult @ file_block file failure_message)
            (log_call (ConsoleError (''Error processing file '' @ file_name file @ '':'') fileError) st1))"

definition run_error_message :: string where
  "run_error_message =
     ''An error occurred during OCR processing. Please try again with different files.''"

text \<open>The body of the outer \<^verbatim>\<open>try\<close>; \<open>Some e\<close> is the error it throws.\<close>

definition try_body :: "env \<Rightarrow> File list \<Rightarrow> string \<Rightarrow> state \<Rightarrow> exn option \<times> state" where
  "try_body env files selectedLanguage st =
     (case worker_job (LoadLanguage selectedLanguage) (loadLanguage env selectedLanguage) st of
        (Inl e, st1) \<Rightarrow> (Some e, st1)
      | (Inr u, st1) \<Rightarrow>
          (case worker_job (Initialize selectedLanguage) (initialize env selectedLanguage) st1 of
             (Inl e, st2) \<Rightarrow> (Some e, st2)
           | (Inr u, st2) \<Rightarrow>
               (case files_loop env files [] st2 of
                  (combinedResult, st3) \<Rightarrow> (None, st3\<lparr>results := combinedResult\<rparr>))))"

text \<open>
  \<open>processFiles\<close>. The result is the final state and the rejection of the returned
  promise, if any: \<open>createWorker\<close> is awaited before the \<^verbatim>\<open>try\<close>, and
  \<open>worker.terminate\<close> inside \<^verbatim>\<open>finally\<close>.
\<close>

definition processFiles :: "env \<Rightarrow> File list \<Rightarrow> string \<Rightarrow> state \<Rightarrow> exn option \<times> state" where
  "processFiles env files selectedLanguage st0 =
     (let st = st0\<lparr>isProcessing := True, progress := Some 0, results := [], error := None\<rparr> in
      case worker_job CreateWorker (createWorker env) st of
        (Inl e, st1) \<Rightarrow> (Some e, st1)
      | (Inr worker, st1) \<Rightarrow>
          (let st3 = (case try_body env files selectedLanguage st1 of
                        (None, st2) \<Rightarrow> st2
                      | (Some e, st2) \<Rightarrow>
                          (log_call (ConsoleError ''OCR Error:'' e) st2)\<lparr>error := Some run_error_message\<rparr>)
           in case worker_job Terminate (terminate env) st3 of
                (Inl e, st4) \<Rightarrow> (Some e, st4)
              | (Inr u, st4) \<Rightarrow> (None, st4\<lparr>isProcessing := False, progress := Some 0\<rparr>)))"

section \<open>What a page, a document and a file yield\<close>

text \<open>
  The outcome of each step as a value, without the state: these are the terms in which the
  properties of the loops are stated, and the loops are proved to compute them.
  \<open>page_image\<close> is the rasterize step of page \<open>i\<close> (get the page, take its viewport at
  \<open>scale\<close>, render it on a canvas of the viewport's size, export the canvas as PNG);
  \<open>page_text\<close> is rasterize followed by recognize.
\<close>

definition page_image :: "env \<Rightarrow> pdf \<Rightarrow> nat \<Rightarrow> exn + string" where
  "page_image env doc i =
     (case getPage env doc i of
        Inl e \<Rightarrow> Inl e
      | Inr page \<Rightarrow>
          (let vp = getViewport env page scale;
               cv = \<lparr>canvas_height = height vp, canvas_width = width vp, pixels = []\<rparr>
           in case render env page cv vp of
                Inl e \<Rightarrow> Inl e
              | Inr drawn \<Rightarrow> Inr (toDataURL env drawn ''image/png'')))"

definition page_text :: "env \<Rightarrow> pdf \<Rightarrow> nat \<Rightarrow> exn + string" where
  "page_text env doc i =
     (case page_image env doc i of
        Inl e \<Rightarrow> Inl e
      | Inr url \<Rightarrow> snd (recognize env (DataURL url)))"

text \<open>The calls made for page \<open>i\<close>, up to the first step that fails.\<close>

definition page_calls :: "env \<Rightarrow> pdf \<Rightarrow> nat \<Rightarrow> call list" where
  "page_calls env doc i =
     GetPage doc i #
     (case getPage env doc i of
        Inl e \<Rightarrow> []
      | Inr page \<Rightarrow>
          (let vp = getViewport env page scale;
               cv = \<lparr>canvas_height = height vp, canvas_width = width vp, pixels = []\<rparr>
           in GetViewport page scale # Render page cv vp #
              (case render env page cv vp of
                 Inl e \<Rightarrow> []
               | Inr drawn \<Rightarrow>
                   [ToDataURL drawn ''image/png'',
                    Recognize (DataURL (toDataURL env drawn ''image/png''))])))"

text \<open>The labelled text of the pages \<open>js\<close> in the order given; the first failure ends it.\<close>

fun pages_text :: "env \<Rightarrow> pdf \<Rightarrow> nat list \<Rightarrow> exn + string" where
  "pages_text env doc [] = Inr []"
| "pages_text env doc (j # js) =
     (case page_text env doc j of
        Inl e \<Rightarrow> Inl e
      | Inr t \<Rightarrow>
          (case pages_text env doc js of
             Inl e \<Rightarrow> Inl e
           | Inr r \<Rightarrow> Inr (page_label j t @ r)))"

definition file_result :: "env \<Rightarrow> File \<Rightarrow> exn + string" where
  "file_result env file =
     (if file_type file = ''application/pdf'' then
        (case getDocument env (createObjectURL env file) of
           Inl e \<Rightarrow> Inl e
         | Inr doc \<Rightarrow> pages_text env doc [1..<Suc (numPages doc)])
      else snd (recognize env (FileImage file)))"

text \<open>The body of a file's block, and the report of a list of files in list order.\<close>

definition file_body :: "env \<Rightarrow> File \<Rightarrow> string" where
  "file_body env file =
     (case file_result env file of Inl e \<Rightarrow> failure_message | Inr text \<Rightarrow> text)"

definition report :: "env \<Rightarrow> File list \<Rightarrow> string" where
  "report env files = concat (map (\<lambda>file. file_block file (file_body env file)) files)"

text \<open>The calls of the engine's life cycle, as opposed to those made for a file.\<close>

fun lifecycle :: "call \<Rightarrow> bool" where
  "lifecycle CreateWorker = True"
| "lifecycle (LoadLanguage l) = True"
| "lifecycle (Initialize l) = True"
| "lifecycle Terminate = True"
| "lifecycle c = False"

fun is_GetPage :: "call \<Rightarrow> bool" where
  "is_GetPage (GetPage doc i) = True"
| "is_GetPage c = False"

text \<open>Whether an awaited job resolved.\<close>

definition resolved :: "message list \<times> (exn + 'a) \<Rightarrow> bool" where
  "resolved reply = (case snd reply of Inl e \<Rightarrow> False | Inr v \<Rightarrow> True)"

text \<open>The state of the component before the first run.\<close>

definition initial_state :: state where
  "initial_state =
     \<lparr>isProcessing = False, results = [], progress = Some 0, error = None, calls = []\<rparr>"

text \<open>A recognition of a queued file itself, as opposed to one of a rendered page.\<close>

fun is_direct :: "call \<Rightarrow> bool" where
  "is_direct (Recognize (FileImage f)) = True"
| "is_direct c = False"

section \<open>A concrete environment\<close>

text \<open>
  An environment on which the model runs: \<open>doc.pdf\<close> has two pages, \<open>torn.pdf\<close> has three
  and its second page does not render, any other PDF does not open, \<open>good.png\<close> is
  recognized and any other image is not; the engine knows the three languages of the
  language selector.
\<close>

definition good_png :: File where
  "good_png = \<lparr>file_name = ''good.png'', file_type = ''image/png'', file_data = ''PNG''\<rparr>"

definition doc_pdf :: File where
  "doc_pdf = \<lparr>file_name = ''doc.pdf'', file_type = ''application/pdf'', file_data = ''PDF''\<rparr>"

definition torn_pdf :: File where
  "torn_pdf = \<lparr>file_name = ''torn.pdf'', file_type = ''application/pdf'', file_data = ''PDF''\<rparr>"

definition corrupt_pdf :: File where
  "corrupt_pdf =
     \<lparr>file_name = ''corrupt.pdf'', file_type = ''application/pdf'', file_data = ''???''\<rparr>"

definition half :: message where
  "half = \<lparr>m_status = ''recognizing text'', m_progress = Finite False 5 0\<rparr>"

definition whole :: message where
  "whole = \<lparr>m_status = ''recognizing text'', m_progress = Finite False 1 1\<rparr>"

definition known_language :: "string \<Rightarrow> bool" where
  "known_language l = (l = ''eng'' \<or> l = ''chi_sim'' \<or> l = ''chi_tra'')"

definition demo_env :: env where
  "demo_env =
     \<lparr>createObjectURL = (\<lambda>f. ''blob:'' @ file_name f),
      getDocument = (\<lambda>url.
        if url = ''blob:doc.pdf'' then Inr \<lparr>pdf_source = url, numPages = 2\<rparr>
        else if url = ''blob:torn.pdf'' then Inr \<lparr>pdf_source = url, numPages = 3\<rparr>
        else Inl (Exn ''InvalidPDFException'')),
      getPage = (\<lambda>doc i. Inr (Page (pdf_source doc) i)),
      getViewport = (\<lambda>page s. \<lparr>height = 792 * s, width = 612 * s\<rparr>),
      render = (\<lambda>page cv vp.
        if page = Page ''blob:torn.pdf'' 2 then Inl (Exn ''RenderingCancelledException'')
        else Inr (cv\<lparr>pixels := ''drawn''\<rparr>)),
      toDataURL = (\<lambda>cv mime. ''data:'' @ mime @ '';base64,'' @ pixels cv),
      createWorker = ([], Inr ()),
      loadLanguage = (\<lambda>l. ([], if known_language l then Inr () else Inl (Exn ''load failed''))),
      initialize = (\<lambda>l. ([], if known_language l then Inr () else Inl (Exn ''init failed''))),
      recognize = (\<lambda>img.
        case img of
          FileImage f \<Rightarrow>
            if file_name f = ''good.png'' then ([half, whole], Inr ''Hello'')
            else ([], Inl (Exn ''unreadable image''))
        | DataURL url \<Rightarrow> ([half, whole], Inr ''Lorem'')),
      terminate = ([], Inr ())\<rparr>"

text \<open>The same environment with an engine whose language data cannot be loaded.\<close>

definition offline_env :: env where
  "offline_env = demo_env\<lparr>loadLanguage := (\<lambda>l. ([], Inl (Exn ''network error'')))\<rparr>"

text \<open>The same environment when the worker cannot be created: \<open>createWorker\<close> rejects.\<close>

definition no_worker_env :: env where
  "no_worker_env = demo_env\<lparr>createWorker := ([], Inl (Exn ''worker failed to load''))\<rparr>"

section \<open>The state and the log through each function\<close>

lemma emit_calls [simp]: "calls (emit ms st) = calls st"
  unfolding emit_def by (induction ms arbitrary: st) (simp_all add: logger_def)
lemma emit_results [simp]: "results (emit ms st) = results st"
  unfolding emit_def by (induction ms arbitrary: st) (simp_all add: logger_def)
lemma emit_error [simp]: "error (emit ms st) = error st"
  unfolding emit_def by (induction ms arbitrary: st) (simp_all add: logger_def)
lemma emit_isProcessing [simp]: "isProcessing (emit ms st) = isProcessing st"
  unfolding emit_def by (induction ms arbitrary: st) (simp_all add: logger_def)

lemma log_call_fields [simp]:
  "calls (log_call c st) = calls st @ [c]"
  "results (log_call c st) = results st"
  "error (log_call c st) = error st"
  "isProcessing (log_call c st) = isProcessing st"
  by (simp_all add: log_call_def)

lemma worker_job_fields [simp]:
  "fst (worker_job c reply st) = snd reply"
  "calls (snd (worker_job c reply st)) = calls st @ [c]"
  "results (snd (worker_job c reply st)) = results st"
  "error (snd (worker_job c reply st)) = error st"
  "isProcessing (snd (worker_job c reply st)) = isProcessing st"
  by (simp_all add: worker_job_def)

lemma page_body_result [simp]: "fst (page_body env doc i st) = page_text env doc i"
  by (simp add: page_body_def page_text_def page_image_def Let_def split: sum.splits)

lemma page_body_calls [simp]:
  "calls (snd (page_body env doc i st)) = calls st @ page_calls env doc i"
  by (simp add: page_body_def page_calls_def Let_def split: sum.splits)

lemma page_body_fields [simp]:
  "results (snd (page_body env doc i st)) = results st"
  "error (snd (page_body env doc i st)) = error st"
  "isProcessing (snd (page_body env doc i st)) = isProcessing st"
  by (simp_all add: page_body_def Let_def split: sum.splits)

lemma pages_loop_result:
  "fst (pages_loop env doc i acc st) =
     (case pages_text env doc [i..<Suc (numPages doc)] of
        Inl e \<Rightarrow> Inl e | Inr r \<Rightarrow> Inr (acc @ r))"
proof (induction env doc i acc st rule: pages_loop.induct)
  case (1 env doc i acc st)
  show ?case
  proof (cases "i \<le> numPages doc")
    case False
    then show ?thesis by (simp add: pages_loop.simps [of env doc i])
  next
    case True
    then have range: "[i..<Suc (numPages doc)] = i # [Suc i..<Suc (numPages doc)]"
      by (simp add: upt_conv_Cons)
    obtain r st1 where body: "page_body env doc i st = (r, st1)"
      by (cases "page_body env doc i st")
    then have r: "page_text env doc i = r"
      using page_body_result [of env doc i st] by simp
    show ?thesis
    proof (cases r)
      case (Inl e)
      with True body r show ?thesis
        unfolding range by (simp add: pages_loop.simps [of env doc i])
    next
      case (Inr t)
      with True body r 1 [OF True body [symmetric], of t] show ?thesis
        unfolding range
        by (simp add: pages_loop.simps [of env doc i] split: sum.splits)
    qed
  qed
qed

lemma pages_loop_calls_ok:
  "\<forall>j. i \<le> j \<and> j \<le> numPages doc \<longrightarrow> \<not> isl (page_text env doc j) \<Longrightarrow>
   calls (snd (pages_loop env doc i acc st)) =
     calls st @ concat (map (page_calls env doc) [i..<Suc (numPages doc)])"
proof (induction env doc i acc st rule: pages_loop.induct)
  case (1 env doc i acc st)
  show ?case
  proof (cases "i \<le> numPages doc")
    case False
    then show ?thesis by (simp add: pages_loop.simps [of env doc i])
  next
    case True
    then have range: "[i..<Suc (numPages doc)] = i # [Suc i..<Suc (numPages doc)]"
      by (simp add: upt_conv_Cons)
    obtain r st1 where body: "page_body env doc i st = (r, st1)"
      by (cases "page_body env doc i st")
    then have r: "page_text env doc i = r"
      using page_body_result [of env doc i st] by simp
    from body have c: "calls st1 = calls st @ page_calls env doc i"
      using page_body_calls [of env doc i st] by simp
    from True "1.prems" r obtain t where t: "r = Inr t"
      by (cases r) auto
    have "\<forall>j. i + 1 \<le> j \<and> j \<le> numPages doc \<longrightarrow> \<not> isl (page_text env doc j)"
      using "1.prems" by simp
    with True body t c "1.IH" [OF True body [symmetric], of t] show ?thesis
      unfolding range
      by (simp add: pages_loop.simps [of env doc i])
  qed
qed

lemma pages_text_ok:
  "\<forall>j \<in> set js. \<not> isl (page_text env doc j) \<Longrightarrow>
   pages_text env doc js = Inr (concat (map (\<lambda>j. page_label j (projr (page_text env doc j))) js))"
  by (induction js) (auto split: sum.splits)

lemma pages_text_fails:
  "j \<in> set js \<Longrightarrow> isl (page_text env doc j) \<Longrightarrow> isl (pages_text env doc js)"
  by (induction js) (auto split: sum.splits)

lemma page_calls_not_lifecycle: "filter lifecycle (page_calls env doc i) = []"
  by (simp add: page_calls_def Let_def split: sum.splits)

lemma page_calls_not_direct: "filter is_direct (page_calls env doc i) = []"
  by (simp add: page_calls_def Let_def split: sum.splits)

lemma pages_loop_grows:
  "\<exists>tr. calls (snd (pages_loop env doc i acc st)) = calls st @ tr
        \<and> filter lifecycle tr = [] \<and> filter is_direct tr = []"
proof (induction env doc i acc st rule: pages_loop.induct)
  case (1 env doc i acc st)
  show ?case
  proof (cases "i \<le> numPages doc")
    case False
    then show ?thesis by (simp add: pages_loop.simps [of env doc i])
  next
    case True
    obtain r st1 where body: "page_body env doc i st = (r, st1)"
      by (cases "page_body env doc i st")
    from body have c: "calls st1 = calls st @ page_calls env doc i"
      using page_body_calls [of env doc i st] by simp
    show ?thesis
    proof (cases r)
      case (Inl e)
      with True body c show ?thesis
        by (simp add: pages_loop.simps [of env doc i] page_calls_not_lifecycle
            page_calls_not_direct)
    next
      case (Inr t)
      from "1" [OF True body [symmetric], of t] body Inr obtain tr where
        "calls (snd (pages_loop env doc (i + 1) (acc @ page_label i t) st1)) = calls st1 @ tr"
        "filter lifecycle tr = []" "filter is_direct tr = []" by auto
      with True body c Inr show ?thesis
        by (simp add: pages_loop.simps [of env doc i] page_calls_not_lifecycle
            page_calls_not_direct)
    qed
  qed
qed

lemma pages_loop_fields:
  "results (snd (pages_loop env doc i acc st)) = results st \<and>
   error (snd (pages_loop env doc i acc st)) = error st \<and>
   isProcessing (snd (pages_loop env doc i acc st)) = isProcessing st"
proof (induction env doc i acc st rule: pages_loop.induct)
  case (1 env doc i acc st)
  show ?case
  proof (cases "i \<le> numPages doc")
    case False
    then show ?thesis by (simp add: pages_loop.simps [of env doc i])
  next
    case True
    obtain r st1 where body: "page_body env doc i st = (r, st1)"
      by (cases "page_body env doc i st")
    from body have c: "results st1 = results st" "error st1 = error st" "isProcessing st1 = isProcessing st"
      using page_body_fields [of env doc i st] by simp_all
    show ?thesis
    proof (cases r)
      case (Inl e)
      with True body c show ?thesis
        by (simp add: pages_loop.simps [of env doc i])
    next
      case (Inr t)
      with True body c "1" [OF True body [symmetric], of t] show ?thesis
        by (simp add: pages_loop.simps [of env doc i])
    qed
  qed
qed

lemma processImage_result [simp]:
  "fst (processImage env f st) = snd (recognize env (FileImage f))"
  by (simp add: processImage_def)

lemma processImage_calls [simp]:
  "calls (snd (processImage env f st)) = calls st @ [Recognize (FileImage f)]"
  by (simp add: processImage_def)

lemma processImage_fields [simp]:
  "results (snd (processImage env f st)) = results st"
  "error (snd (processImage env f st)) = error st"
  "isProcessing (snd (processImage env f st)) = isProcessing st"
  by (simp_all add: processImage_def)

lemma processPDF_result:
  "fst (processPDF env f st) =
     (case getDocument env (createObjectURL env f) of
        Inl e \<Rightarrow> Inl e
      | Inr doc \<Rightarrow> pages_text env doc [1..<Suc (numPages doc)])"
proof (cases "getDocument env (createObjectURL env f)")
  case (Inl e)
  then show ?thesis by (simp add: processPDF_def)
next
  case (Inr doc)
  let ?st2 = "log_call (GetDocument (createObjectURL env f)) (log_call (CreateObjectURL f) st)"
  obtain r st3 where loop: "pages_loop env doc 1 [] ?st2 = (r, st3)"
    by (cases "pages_loop env doc 1 [] ?st2")
  with pages_loop_result [of env doc 1 "[]" ?st2]
  have "r = pages_text env doc [1..<Suc (numPages doc)]"
    by (simp split: sum.splits)
  with Inr loop show ?thesis
    by (simp add: processPDF_def split: sum.splits)
qed

lemma processPDF_grows:
  "\<exists>tr. calls (snd (processPDF env f st)) =
          calls st @ CreateObjectURL f # GetDocument (createObjectURL env f) # tr
        \<and> filter lifecycle tr = [] \<and> filter is_direct tr = []"
proof (cases "getDocument env (createObjectURL env f)")
  case (Inl e)
  then show ?thesis by (simp add: processPDF_def)
next
  case (Inr doc)
  let ?st2 = "log_call (GetDocument (createObjectURL env f)) (log_call (CreateObjectURL f) st)"
  obtain r st3 where loop: "pages_loop env doc 1 [] ?st2 = (r, st3)"
    by (cases "pages_loop env doc 1 [] ?st2")
  with pages_loop_grows [of env doc 1 "[]" ?st2] obtain tr where
    "calls st3 = calls ?st2 @ tr" "filter lifecycle tr = []" "filter is_direct tr = []" by auto
  with Inr loop show ?thesis
    by (cases r) (simp_all add: processPDF_def)
qed

lemma processPDF_fields:
  "results (snd (processPDF env f st)) = results st \<and>
   error (snd (processPDF env f st)) = error st \<and>
   isProcessing (snd (processPDF env f st)) = isProcessing st"
proof (cases "getDocument env (createObjectURL env f)")
  case (Inl e)
  then show ?thesis by (simp add: processPDF_def)
next
  case (Inr doc)
  let ?st2 = "log_call (GetDocument (createObjectURL env f)) (log_call (CreateObjectURL f) st)"
  obtain r st3 where loop: "pages_loop env doc 1 [] ?st2 = (r, st3)"
    by (cases "pages_loop env doc 1 [] ?st2")
  with pages_loop_fields [of env doc 1 "[]" ?st2] Inr show ?thesis
    by (cases r) (simp_all add: processPDF_def)
qed

lemma processPDF_calls_ok:
  assumes "getDocument env (createObjectURL env f) = Inr doc"
    and "\<forall>j. 1 \<le> j \<and> j \<le> numPages doc \<longrightarrow> \<not> isl (page_text env doc j)"
  shows "calls (snd (processPDF env f st)) =
           calls st @ [CreateObjectURL f, GetDocument (createObjectURL env f)]
             @ concat (map (page_calls env doc) [1..<Suc (numPages doc)])
             @ [RevokeObjectURL (createObjectURL env f)]"
proof -
  let ?st2 = "log_call (GetDocument (createObjectURL env f)) (log_call (CreateObjectURL f) st)"
  obtain r st3 where loop: "pages_loop env doc 1 [] ?st2 = (r, st3)"
    by (cases "pages_loop env doc 1 [] ?st2")
  have "\<forall>j \<in> set [1..<Suc (numPages doc)]. \<not> isl (page_text env doc j)"
    using assms(2) by auto
  then have "pages_text env doc [1..<Suc (numPages doc)] =
      Inr (concat (map (\<lambda>j. page_label j (projr (page_text env doc j))) [1..<Suc (numPages doc)]))"
    by (rule pages_text_ok)
  with loop pages_loop_result [of env doc 1 "[]" ?st2] obtain t where r: "r = Inr t"
    by simp
  from loop pages_loop_calls_ok [OF assms(2), of "[]" ?st2]
  have "calls st3 = calls ?st2 @ concat (map (page_calls env doc) [1..<Suc (numPages doc)])"
    by simp
  with assms(1) loop r show ?thesis
    by (simp add: processPDF_def)
qed

lemma process_file_result: "fst (process_file env f st) = file_result env f"
  by (simp add: process_file_def file_result_def processPDF_result)

lemma process_file_grows:
  "\<exists>tr. calls (snd (process_file env f st)) = calls st @ tr \<and> filter lifecycle tr = []"
  using processPDF_grows [of env f st] by (auto simp add: process_file_def)

lemma process_file_fields:
  "results (snd (process_file env f st)) = results st \<and>
   error (snd (process_file env f st)) = error st \<and>
   isProcessing (snd (process_file env f st)) = isProcessing st"
  using processPDF_fields [of env f st] by (simp add: process_file_def)

lemma report_Cons: "report env (f # fs) = file_block f (file_body env f) @ report env fs"
  by (simp add: report_def)

lemma report_append: "report env (fs @ gs) = report env fs @ report env gs"
  by (simp add: report_def)

lemma files_loop_result: "fst (files_loop env fs acc st) = acc @ report env fs"
proof (induction fs arbitrary: acc st)
  case Nil
  then show ?case by (simp add: report_def)
next
  case (Cons f fs)
  obtain r st1 where step: "process_file env f st = (r, st1)"
    by (cases "process_file env f st")
  then have r: "file_result env f = r"
    using process_file_result [of env f st] by simp
  from step r Cons show ?case
    by (cases r) (simp_all add: report_Cons file_body_def)
qed

lemma files_loop_grows:
  "\<exists>tr. calls (snd (files_loop env fs acc st)) = calls st @ tr \<and> filter lifecycle tr = []"
proof (induction fs arbitrary: acc st)
  case Nil
  then show ?case by simp
next
  case (Cons f fs)
  obtain r st1 where step: "process_file env f st = (r, st1)"
    by (cases "process_file env f st")
  with process_file_grows [of env f st] obtain tr where
    tr: "calls st1 = calls st @ tr" "filter lifecycle tr = []" by auto
  show ?case
  proof (cases r)
    case (Inl e)
    let ?st1 = "log_call (ConsoleError (''Error processing file '' @ file_name f @ '':'') e) st1"
    from Cons [of "acc @ file_block f failure_message" ?st1] obtain tr' where
      "calls (snd (files_loop env fs (acc @ file_block f failure_message) ?st1)) = calls ?st1 @ tr'"
      "filter lifecycle tr' = []" by blast
    with step Inl tr show ?thesis by simp
  next
    case (Inr t)
    from Cons [of "acc @ file_block f t" st1] obtain tr' where
      "calls (snd (files_loop env fs (acc @ file_block f t) st1)) = calls st1 @ tr'"
      "filter lifecycle tr' = []" by blast
    with step Inr tr show ?thesis by simp
  qed
qed

lemma files_loop_fields:
  "error (snd (files_loop env fs acc st)) = error st \<and>
   isProcessing (snd (files_loop env fs acc st)) = isProcessing st"
proof (induction fs arbitrary: acc st)
  case Nil
  then show ?case by simp
next
  case (Cons f fs)
  obtain r st1 where step: "process_file env f st = (r, st1)"
    by (cases "process_file env f st")
  with process_file_fields [of env f st] Cons show ?case
    by (cases r) simp_all
qed

lemma resolved_unit: "resolved reply \<Longrightarrow> snd reply = Inr ()"
  by (cases "snd reply") (simp_all add: resolved_def)

lemma not_resolved: "\<not> resolved reply \<Longrightarrow> \<exists>e. snd reply = Inl e"
  by (cases "snd reply") (simp_all add: resolved_def)

lemma worker_job_eq: "worker_job c reply st = (snd reply, emit (fst reply) (log_call c st))"
  by (simp add: worker_job_def)

lemma processFiles_completed:
  assumes "resolved (createWorker env)"
    and "resolved (loadLanguage env lang)"
    and "resolved (initialize env lang)"
  shows "results (snd (processFiles env files lang st)) = report env files"
    and "error (snd (processFiles env files lang st)) = None"
    and "\<exists>tr. calls (snd (processFiles env files lang st)) =
            calls st @ [CreateWorker, LoadLanguage lang, Initialize lang] @ tr @ [Terminate]
          \<and> filter lifecycle tr = []"
proof -
  let ?st = "st\<lparr>isProcessing := True, progress := Some 0, results := [], error := None\<rparr>"
  let ?st1 = "emit (fst (createWorker env)) (log_call CreateWorker ?st)"
  let ?st2 = "emit (fst (loadLanguage env lang)) (log_call (LoadLanguage lang) ?st1)"
  let ?st3 = "emit (fst (initialize env lang)) (log_call (Initialize lang) ?st2)"
  obtain combined st4 where loop: "files_loop env files [] ?st3 = (combined, st4)"
    by (cases "files_loop env files [] ?st3")
  have body: "try_body env files lang ?st1 = (None, st4\<lparr>results := combined\<rparr>)"
    using resolved_unit [OF assms(2)] resolved_unit [OF assms(3)] loop
    by (simp add: try_body_def worker_job_eq)
  have combined: "combined = report env files"
    using files_loop_result [of env files "[]" ?st3] loop by simp
  have err: "error st4 = None"
    using files_loop_fields [of env files "[]" ?st3] loop by simp
  obtain tr where tr: "calls st4 = calls ?st3 @ tr" "filter lifecycle tr = []"
    using files_loop_grows [of env files "[]" ?st3] loop by auto
  have run: "snd (processFiles env files lang st) =
      (case snd (terminate env) of
         Inl e \<Rightarrow> emit (fst (terminate env)) (log_call Terminate (st4\<lparr>results := combined\<rparr>))
       | Inr u \<Rightarrow> (emit (fst (terminate env)) (log_call Terminate (st4\<lparr>results := combined\<rparr>)))
                   \<lparr>isProcessing := False, progress := Some 0\<rparr>)"
    using resolved_unit [OF assms(1)] body
    by (simp add: processFiles_def worker_job_eq Let_def split: sum.splits)
  show "results (snd (processFiles env files lang st)) = report env files"
    unfolding run using combined by (simp split: sum.splits)
  show "error (snd (processFiles env files lang st)) = None"
    unfolding run using err by (simp split: sum.splits)
  have "calls (snd (processFiles env files lang st)) =
      calls st @ [CreateWorker, LoadLanguage lang, Initialize lang] @ tr @ [Terminate]"
    unfolding run using tr(1) by (simp split: sum.splits)
  with tr(2) show "\<exists>tr. calls (snd (processFiles env files lang st)) =
            calls st @ [CreateWorker, LoadLanguage lang, Initialize lang] @ tr @ [Terminate]
          \<and> filter lifecycle tr = []" by blast
qed

lemma processFiles_load_fails:
  assumes "resolved (createWorker env)"
    and "snd (loadLanguage env lang) = Inl e"
  shows "results (snd (processFiles env files lang st)) = []"
    and "error (snd (processFiles env files lang st)) = Some run_error_message"
    and "calls (snd (processFiles env files lang st)) =
           calls st @ [CreateWorker, LoadLanguage lang, ConsoleError ''OCR Error:'' e, Terminate]"
proof -
  let ?st = "st\<lparr>isProcessing := True, progress := Some 0, results := [], error := None\<rparr>"
  let ?st1 = "emit (fst (createWorker env)) (log_call CreateWorker ?st)"
  let ?st2 = "emit (fst (loadLanguage env lang)) (log_call (LoadLanguage lang) ?st1)"
  let ?st3 = "(log_call (ConsoleError ''OCR Error:'' e) ?st2)\<lparr>error := Some run_error_message\<rparr>"
  have body: "try_body env files lang ?st1 = (Some e, ?st2)"
    using assms(2) by (simp add: try_body_def worker_job_eq)
  have run: "snd (processFiles env files lang st) =
      (case snd (terminate env) of
         Inl e \<Rightarrow> emit (fst (terminate env)) (log_call Terminate ?st3)
       | Inr u \<Rightarrow> (emit (fst (terminate env)) (log_call Terminate ?st3))
                   \<lparr>isProcessing := False, progress := Some 0\<rparr>)"
    using resolved_unit [OF assms(1)] body
    by (simp add: processFiles_def worker_job_eq Let_def split: sum.splits)
  show "results (snd (processFiles env files lang st)) = []"
    unfolding run by (simp split: sum.splits)
  show "error (snd (processFiles env files lang st)) = Some run_error_message"
    unfolding run by (simp split: sum.splits)
  show "calls (snd (processFiles env files lang st)) =
           calls st @ [CreateWorker, LoadLanguage lang, ConsoleError ''OCR Error:'' e, Terminate]"
    unfolding run by (simp split: sum.splits)
qed

lemma processFiles_initialize_fails:
  assumes "resolved (createWorker env)"
    and "resolved (loadLanguage env lang)"
    and "snd (initialize env lang) = Inl e"
  shows "results (snd (processFiles env files lang st)) = []"
    and "error (snd (processFiles env files lang st)) = Some run_error_message"
    and "calls (snd (processFiles env files lang st)) =
           calls st @ [CreateWorker, LoadLanguage lang, Initialize lang,
                       ConsoleError ''OCR Error:'' e, Terminate]"
proof -
  let ?st = "st\<lparr>isProcessing := True, progress := Some 0, results := [], error := None\<rparr>"
  let ?st1 = "emit (fst (createWorker env)) (log_call CreateWorker ?st)"
  let ?st2 = "emit (fst (loadLanguage env lang)) (log_call (LoadLanguage lang) ?st1)"
  let ?st2' = "emit (fst (initialize env lang)) (log_call (Initialize lang) ?st2)"
  let ?st3 = "(log_call (ConsoleError ''OCR Error:'' e) ?st2')\<lparr>error := Some run_error_message\<rparr>"
  have body: "try_body env files lang ?st1 = (Some e, ?st2')"
    using resolved_unit [OF assms(2)] assms(3) by (simp add: try_body_def worker_job_eq)
  have run: "snd (processFiles env files lang st) =
      (case snd (terminate env) of
         Inl e \<Rightarrow> emit (fst (terminate env)) (log_call Terminate ?st3)
       | Inr u \<Rightarrow> (emit (fst (terminate env)) (log_call Terminate ?st3))
                   \<lparr>isProcessing := False, progress := Some 0\<rparr>)"
    using resolved_unit [OF assms(1)] body
    by (simp add: processFiles_def worker_job_eq Let_def split: sum.splits)
  show "results (snd (processFiles env files lang st)) = []"
    unfolding run by (simp split: sum.splits)
  show "error (snd (processFiles env files lang st)) = Some run_error_message"
    unfolding run by (simp split: sum.splits)
  show "calls (snd (processFiles env files lang st)) =
           calls st @ [CreateWorker, LoadLanguage lang, Initialize lang,
                       ConsoleError ''OCR Error:'' e, Terminate]"
    unfolding run by (simp split: sum.splits)
qed

lemma processFiles_createWorker_rejects:
  assumes "snd (createWorker env) = Inl e"
  shows "fst (processFiles env files lang st) = Some e"
    and "calls (snd (processFiles env files lang st)) = calls st @ [CreateWorker]"
    and "error (snd (processFiles env files lang st)) = None"
    and "results (snd (processFiles env files lang st)) = []"
    and "isProcessing (snd (processFiles env files lang st))"
  using assms by (simp_all add: processFiles_def worker_job_eq Let_def)

section \<open>The progress logger\<close>

lemma parseInt_zero_point: "parseInt (''0.'' @ rest) = Some 0"
  by (simp add: parseInt_def is_space_def is_digit_def digit_value_def digits_value_def)

lemma logger_small_fraction:
  assumes "m_status m = ''recognizing text''"
    and "m_progress m = Finite False s n" and "0 < s" and "- 6 < n" and "n \<le> 0"
  shows "progress (logger m st) = Some 0"
proof -
  have "0 < length (nat_toString s)"
    by (subst nat_toString.simps) simp
  then have "\<not> int (length (nat_toString s)) \<le> n"
    using assms(5) by linarith
  with assms have "toString (m_progress m) = ''0.'' @ replicate (nat (- n)) (CHR ''0'') @ nat_toString s"
    by (simp add: toString_def Let_def)
  then show ?thesis
    using assms(1) parseInt_zero_point [of "replicate (nat (- n)) (CHR ''0'') @ nat_toString s"]
    by (simp add: logger_def js_times_def)
qed

text \<open>
  C1. Claimed: a \<open>recognizing text\<close> event with fraction \<open>p\<close> in \<open>[0, 1]\<close> sets the displayed
  percentage to \<open>p * 100\<close>. The logger parses the printed fraction as an integer before
  scaling it: the event with \<open>p = 0.5\<close> prints as \<open>0.5\<close>, \<open>parseInt\<close> reads \<open>0\<close>, and the
  percentage becomes \<open>0\<close>, not \<open>50\<close>.
\<close>

theorem logger_half_shows_zero:
  "m_status half = ''recognizing text'' \<and>
   num_value (m_progress half) = Some (1 / 2) \<and>
   toString (m_progress half) = ''0.5'' \<and>
   progress (logger half initial_state) = Some 0"
proof -
  have printed: "toString (Finite False 5 0) = ''0.5''"
    by code_simp
  have "num_value (Finite False 5 0) = Some (1 / 2)"
    by (simp add: num_value_def nat_toString.simps digit_char_def)
  moreover have "progress (logger half initial_state) = Some 0"
    using parseInt_zero_point [of "''5''"]
    by (simp add: logger_def half_def printed js_times_def)
  ultimately show ?thesis
    by (simp add: half_def printed)
qed

section \<open>The life cycle of the engine\<close>

lemma no_lifecycle_no_Terminate:
  "filter lifecycle tr = [] \<Longrightarrow> filter (\<lambda>c. c = Terminate) tr = []"
  by (induction tr) (auto split: if_splits)

lemma no_lifecycle_set: "filter lifecycle tr = [] \<Longrightarrow> \<forall>c \<in> set tr. \<not> lifecycle c"
  by (simp add: filter_empty_conv)

text \<open>
  C2 as stated, for every call of \<open>processFiles\<close>, does not hold: \<open>createWorker\<close> is awaited
  before the \<^verbatim>\<open>try\<close>, so when it rejects the \<^verbatim>\<open>finally\<close> block is never entered. With
  the worker that cannot be created, the only call of a run on \<open>good.png\<close> is
  \<open>createWorker\<close>; \<open>terminate\<close> is not called.
\<close>

theorem processFiles_no_worker_no_terminate:
  "calls (snd (processFiles no_worker_env [good_png] ''eng'' initial_state)) = [CreateWorker]
   \<and> Terminate \<notin> set (calls (snd (processFiles no_worker_env [good_png] ''eng'' initial_state)))"
proof -
  have c: "snd (createWorker no_worker_env) = Inl (Exn ''worker failed to load'')"
    by (simp add: no_worker_env_def)
  show ?thesis
    by (simp add: processFiles_createWorker_rejects(2) [OF c] initial_state_def)
qed

text \<open>
  C2, amended. In every run that has an engine instance (\<open>createWorker\<close> resolved),
  \<open>worker.terminate\<close> is called exactly once, whatever the outcome of the language load,
  of the initialization, of each file and of \<open>terminate\<close> itself: the run adds exactly one
  \<open>Terminate\<close> to the log of calls.
\<close>

theorem processFiles_terminates_once:
  assumes "resolved (createWorker env)"
  shows "length (filter (\<lambda>c. c = Terminate) (calls (snd (processFiles env files lang st)))) =
           length (filter (\<lambda>c. c = Terminate) (calls st)) + 1"
proof (cases "snd (loadLanguage env lang)")
  case (Inl e)
  show ?thesis
    by (simp add: processFiles_load_fails(3) [OF assms Inl])
next
  case load: (Inr u)
  then have l: "resolved (loadLanguage env lang)"
    by (simp add: resolved_def)
  show ?thesis
  proof (cases "snd (initialize env lang)")
    case (Inl e)
    show ?thesis
      by (simp add: processFiles_initialize_fails(3) [OF assms l Inl])
  next
    case (Inr v)
    then have i: "resolved (initialize env lang)"
      by (simp add: resolved_def)
    from processFiles_completed(3) [OF assms l i, of files st] obtain tr where
      tr: "calls (snd (processFiles env files lang st)) =
             calls st @ [CreateWorker, LoadLanguage lang, Initialize lang] @ tr @ [Terminate]"
      and "filter lifecycle tr = []" by blast
    then have "filter (\<lambda>c. c = Terminate) tr = []"
      by (simp add: no_lifecycle_no_Terminate)
    with tr show ?thesis by simp
  qed
qed

theorem processFiles_terminates_once_witness:
  "resolved (createWorker demo_env) \<and>
   length (filter (\<lambda>c. c = Terminate)
     (calls (snd (processFiles demo_env [good_png, torn_pdf] ''deu'' initial_state)))) = 1"
proof -
  have h: "resolved (createWorker demo_env)"
    by (simp add: demo_env_def resolved_def)
  show ?thesis
    using h processFiles_terminates_once [OF h, of "[good_png, torn_pdf]" "''deu''" initial_state]
    by (simp add: initial_state_def)
qed

text \<open>
  C8 as stated, for every run, does not hold: when the language load fails the run is
  aborted before \<open>initialize\<close> is called. With the engine whose language data cannot be
  loaded, the calls of a run on \<open>good.png\<close> are \<open>createWorker\<close>, \<open>loadLanguage\<close>, the logged
  error and \<open>terminate\<close>; the engine is never initialized.
\<close>

theorem processFiles_initialize_not_reached:
  "calls (snd (processFiles offline_env [good_png] ''eng'' initial_state)) =
     [CreateWorker, LoadLanguage ''eng'', ConsoleError ''OCR Error:'' (Exn ''network error''),
      Terminate]
   \<and> Initialize ''eng'' \<notin> set (calls (snd (processFiles offline_env [good_png] ''eng'' initial_state)))"
proof -
  have c: "resolved (createWorker offline_env)"
    by (simp add: offline_env_def demo_env_def resolved_def)
  have l: "snd (loadLanguage offline_env ''eng'') = Inl (Exn ''network error'')"
    by (simp add: offline_env_def)
  show ?thesis
    by (simp add: processFiles_load_fails(3) [OF c l] initial_state_def)
qed

text \<open>
  C8, amended. In every run whose engine instance is created and whose language load
  resolves, the calls of the run are: \<open>createWorker\<close> once, \<open>loadLanguage\<close> and then
  \<open>initialize\<close> once each with the selected language, then the calls made for the files,
  none of which creates, loads, initializes or terminates an engine, then \<open>terminate\<close>.
\<close>

theorem processFiles_initializes_once:
  assumes "resolved (createWorker env)" and "resolved (loadLanguage env lang)"
  shows "\<exists>tr. calls (snd (processFiles env files lang st)) =
                 calls st @ [CreateWorker, LoadLanguage lang, Initialize lang] @ tr @ [Terminate]
             \<and> (\<forall>c \<in> set tr. \<not> lifecycle c)"
proof (cases "snd (initialize env lang)")
  case (Inl e)
  have "calls (snd (processFiles env files lang st)) =
      calls st @ [CreateWorker, LoadLanguage lang, Initialize lang]
        @ [ConsoleError ''OCR Error:'' e] @ [Terminate]"
    by (simp add: processFiles_initialize_fails(3) [OF assms Inl])
  moreover have "\<forall>c \<in> set [ConsoleError ''OCR Error:'' e]. \<not> lifecycle c"
    by simp
  ultimately show ?thesis by blast
next
  case (Inr v)
  then have i: "resolved (initialize env lang)"
    by (simp add: resolved_def)
  from processFiles_completed(3) [OF assms i, of files st] show ?thesis
    using no_lifecycle_set by blast
qed

theorem processFiles_initializes_once_witness:
  "resolved (createWorker demo_env) \<and> resolved (loadLanguage demo_env ''eng'') \<and>
   (\<exists>tr. calls (snd (processFiles demo_env [good_png, doc_pdf] ''eng'' initial_state)) =
            [CreateWorker, LoadLanguage ''eng'', Initialize ''eng''] @ tr @ [Terminate]
        \<and> filter lifecycle tr = [])"
proof -
  have h: "resolved (createWorker demo_env)" "resolved (loadLanguage demo_env ''eng'')"
    by (simp_all add: demo_env_def resolved_def known_language_def)
  show ?thesis
    using h processFiles_initializes_once [OF h, of "[good_png, doc_pdf]" initial_state]
    by (simp add: initial_state_def filter_empty_conv)
qed

text \<open>
  C10 as stated does not hold for every run on an empty queue: with the engine whose
  language data cannot be loaded, the run on the empty queue records the run-level error
  and does not initialize the engine.
\<close>

theorem processFiles_empty_queue_aborted:
  "error (snd (processFiles offline_env [] ''eng'' initial_state)) = Some run_error_message
   \<and> calls (snd (processFiles offline_env [] ''eng'' initial_state)) =
       [CreateWorker, LoadLanguage ''eng'', ConsoleError ''OCR Error:'' (Exn ''network error''),
        Terminate]"
proof -
  have c: "resolved (createWorker offline_env)"
    by (simp add: offline_env_def demo_env_def resolved_def)
  have l: "snd (loadLanguage offline_env ''eng'') = Inl (Exn ''network error'')"
    by (simp add: offline_env_def)
  show ?thesis
    by (simp add: processFiles_load_fails(2,3) [OF c l] initial_state_def)
qed

text \<open>
  C10, amended. On an empty queue, with an engine that is created, loads the language and
  initializes, the run calls \<open>createWorker\<close>, \<open>loadLanguage\<close>, \<open>initialize\<close> and \<open>terminate\<close>
  and nothing else, records no error and leaves the empty string as the report.
\<close>

theorem processFiles_empty_queue:
  assumes "resolved (createWorker env)" and "resolved (loadLanguage env lang)"
    and "resolved (initialize env lang)"
  shows "calls (snd (processFiles env [] lang st)) =
           calls st @ [CreateWorker, LoadLanguage lang, Initialize lang, Terminate]
         \<and> error (snd (processFiles env [] lang st)) = None
         \<and> results (snd (processFiles env [] lang st)) = []"
proof -
  have "snd (createWorker env) = Inr ()" "snd (loadLanguage env lang) = Inr ()"
    "snd (initialize env lang) = Inr ()"
    using assms by (simp_all add: resolved_unit)
  then show ?thesis
    by (simp add: processFiles_def try_body_def worker_job_eq Let_def split: sum.splits)
qed

theorem processFiles_empty_queue_witness:
  "resolved (createWorker demo_env) \<and> resolved (loadLanguage demo_env ''chi_sim'') \<and>
   resolved (initialize demo_env ''chi_sim'') \<and>
   calls (snd (processFiles demo_env [] ''chi_sim'' initial_state)) =
     [CreateWorker, LoadLanguage ''chi_sim'', Initialize ''chi_sim'', Terminate] \<and>
   error (snd (processFiles demo_env [] ''chi_sim'' initial_state)) = None \<and>
   results (snd (processFiles demo_env [] ''chi_sim'' initial_state)) = []"
proof -
  have h: "resolved (createWorker demo_env)" "resolved (loadLanguage demo_env ''chi_sim'')"
    "resolved (initialize demo_env ''chi_sim'')"
    by (simp_all add: demo_env_def resolved_def known_language_def)
  show ?thesis
    using h processFiles_empty_queue [OF h, of initial_state]
    by (simp add: initial_state_def)
qed

section \<open>Abort and report\<close>




text \<open>
  C5. The combined result with which the loop over the queue ends is the concatenation,
  in queue order, of one block \<open>File: name\<close>, empty line, body, empty line per queued file,
  the body being the file's text or the failure message; and in every run that is not
  aborted (the engine is created, loads the language and initializes) this is the final
  report.
\<close>

theorem processFiles_report_in_queue_order:
  "fst (files_loop env files [] st0) =
     concat (map (\<lambda>file. ''File: '' @ file_name file @ ''\<newline>\<newline>''
                            @ file_body env file @ ''\<newline>\<newline>'') files)
   \<and> (resolved (createWorker env) \<and> resolved (loadLanguage env lang) \<and>
      resolved (initialize env lang) \<longrightarrow>
        results (snd (processFiles env files lang st)) =
          concat (map (\<lambda>file. ''File: '' @ file_name file @ ''\<newline>\<newline>''
                                 @ file_body env file @ ''\<newline>\<newline>'') files))"
  using processFiles_completed(1) [of env lang files st] files_loop_result [of env files "[]" st0]
  by (simp add: report_def file_block_def)

theorem processFiles_report_in_queue_order_witness:
  "resolved (createWorker demo_env) \<and> resolved (loadLanguage demo_env ''eng'') \<and>
   resolved (initialize demo_env ''eng'') \<and>
   results (snd (processFiles demo_env [corrupt_pdf, good_png] ''eng'' initial_state)) =
     ''File: corrupt.pdf\<newline>\<newline>'' @ file_body demo_env corrupt_pdf @ ''\<newline>\<newline>'' @
     ''File: good.png\<newline>\<newline>'' @ file_body demo_env good_png @ ''\<newline>\<newline>''"
proof -
  have h: "resolved (createWorker demo_env)" "resolved (loadLanguage demo_env ''eng'')"
    "resolved (initialize demo_env ''eng'')"
    by (simp_all add: demo_env_def resolved_def known_language_def)
  show ?thesis
    using h processFiles_report_in_queue_order
      [of demo_env "[corrupt_pdf, good_png]" initial_state "''eng''" initial_state]
    by (simp add: corrupt_pdf_def good_png_def)
qed

section \<open>Failure of one file\<close>

text \<open>
  C3. When the processing of a file of the queue throws, the loop goes on: its combined
  result is what it had, the report of the files before that file, the block of that file
  with the fixed failure message, and the report of the files after it, so the files after
  it are processed and the blocks of the other files are what they are without it. In a
  run that is not aborted this is the final report, and no run-level error is set.
\<close>

theorem processFiles_isolates_file_failure:
  assumes "fst (process_file env f st0) = Inl e"
  shows "fst (files_loop env (before @ f # after) combinedResult st1) =
           combinedResult @ report env before
           @ ''File: '' @ file_name f @ ''\<newline>\<newline>''
           @ ''Error: Unable to process this file. It may be corrupted or in an unsupported format.''
           @ ''\<newline>\<newline>''
           @ report env after
         \<and> (resolved (createWorker env) \<and> resolved (loadLanguage env lang) \<and>
            resolved (initialize env lang) \<longrightarrow>
              error (snd (processFiles env (before @ f # after) lang st)) = None \<and>
              results (snd (processFiles env (before @ f # after) lang st)) =
                report env before
                @ ''File: '' @ file_name f @ ''\<newline>\<newline>''
                @ ''Error: Unable to process this file. It may be corrupted or in an unsupported format.''
                @ ''\<newline>\<newline>''
                @ report env after)"
proof -
  from assms have "file_result env f = Inl e"
    by (simp add: process_file_result)
  then have "file_body env f = failure_message"
    by (simp add: file_body_def)
  then have "report env (before @ f # after) =
      report env before @ file_block f failure_message @ report env after"
    by (simp add: report_append report_Cons)
  then show ?thesis
    using processFiles_completed(1,2) [of env lang "before @ f # after" st]
      files_loop_result [of env "before @ f # after" combinedResult st1]
    by (simp add: file_block_def failure_message_def)
qed

theorem processFiles_isolates_file_failure_witness:
  "resolved (createWorker demo_env) \<and> resolved (loadLanguage demo_env ''eng'') \<and>
   resolved (initialize demo_env ''eng'') \<and>
   fst (process_file demo_env corrupt_pdf initial_state) = Inl (Exn ''InvalidPDFException'') \<and>
   results (snd (processFiles demo_env ([good_png] @ corrupt_pdf # [doc_pdf]) ''eng'' initial_state)) =
     report demo_env [good_png]
     @ ''File: corrupt.pdf\<newline>\<newline>''
     @ ''Error: Unable to process this file. It may be corrupted or in an unsupported format.''
     @ ''\<newline>\<newline>''
     @ report demo_env [doc_pdf]"
proof -
  have h: "resolved (createWorker demo_env)" "resolved (loadLanguage demo_env ''eng'')"
    "resolved (initialize demo_env ''eng'')"
    by (simp_all add: demo_env_def resolved_def known_language_def)
  have c: "fst (process_file demo_env corrupt_pdf initial_state) = Inl (Exn ''InvalidPDFException'')"
    by (simp add: process_file_def processPDF_def demo_env_def corrupt_pdf_def)
  show ?thesis
    using h c processFiles_isolates_file_failure
      [OF c, where before = "[good_png]" and after = "[doc_pdf]" and lang = "''eng''"
        and st = initial_state and combinedResult = "[]" and ?st1.0 = initial_state]
    by (simp add: corrupt_pdf_def)
qed

section \<open>The pages of a document\<close>

lemma page_calls_scale:
  "GetViewport pg s \<in> set (page_calls env doc i) \<Longrightarrow> s = 3 / 2"
  by (auto simp add: page_calls_def Let_def scale_def split: sum.splits)

lemma page_calls_GetPage: "filter is_GetPage (page_calls env doc i) = [GetPage doc i]"
  by (simp add: page_calls_def Let_def split: sum.splits)

lemma pages_GetPage:
  "filter is_GetPage (concat (map (page_calls env doc) js)) = map (GetPage doc) js"
  by (induction js) (simp_all add: page_calls_GetPage)

text \<open>
  C6. For a document that opens with \<open>numPages\<close> pages, each of which is rasterized and
  recognized without error, \<open>processPDF\<close> returns the blocks \<open>Page i:\<close>, newline, text of
  page \<open>i\<close>, empty line, for \<open>i\<close> from 1 to \<open>numPages\<close> in this order; the pages it asks for are
  1, 2, ..., \<open>numPages\<close> in this order, its calls are those of page 1, then of page 2, and
  so on, between opening the document and revoking its URL, and every viewport is taken
  at scale 1.5.
\<close>

theorem processPDF_pages_in_order:
  assumes "getDocument env (createObjectURL env f) = Inr doc"
    and "\<forall>j. 1 \<le> j \<and> j \<le> numPages doc \<longrightarrow> \<not> isl (page_text env doc j)"
  shows "fst (processPDF env f st) =
           Inr (concat (map (\<lambda>i. ''Page '' @ nat_toString i @ '':\<newline>''
                                   @ projr (page_text env doc i) @ ''\<newline>\<newline>'')
                  [1..<Suc (numPages doc)]))
         \<and> calls (snd (processPDF env f st)) =
             calls st @ [CreateObjectURL f, GetDocument (createObjectURL env f)]
               @ concat (map (page_calls env doc) [1..<Suc (numPages doc)])
               @ [RevokeObjectURL (createObjectURL env f)]
         \<and> filter is_GetPage (concat (map (page_calls env doc) [1..<Suc (numPages doc)])) =
             map (GetPage doc) [1..<Suc (numPages doc)]
         \<and> (\<forall>pg s. GetViewport pg s \<in> set (concat (map (page_calls env doc) [1..<Suc (numPages doc)]))
              \<longrightarrow> s = 3 / 2)"
proof -
  have "\<forall>j \<in> set [1..<Suc (numPages doc)]. \<not> isl (page_text env doc j)"
    using assms(2) by auto
  then have "pages_text env doc [1..<Suc (numPages doc)] =
      Inr (concat (map (\<lambda>j. page_label j (projr (page_text env doc j))) [1..<Suc (numPages doc)]))"
    by (rule pages_text_ok)
  then have "fst (processPDF env f st) =
      Inr (concat (map (\<lambda>j. page_label j (projr (page_text env doc j))) [1..<Suc (numPages doc)]))"
    using assms(1) by (simp add: processPDF_result)
  moreover have "\<forall>pg s. GetViewport pg s \<in> set (concat (map (page_calls env doc) [1..<Suc (numPages doc)]))
      \<longrightarrow> s = 3 / 2"
    using page_calls_scale by fastforce
  ultimately show ?thesis
    using processPDF_calls_ok [OF assms, of st] pages_GetPage [of env doc]
    by (simp add: page_label_def)
qed

theorem processPDF_pages_in_order_witness:
  "getDocument demo_env (createObjectURL demo_env doc_pdf) =
     Inr \<lparr>pdf_source = ''blob:doc.pdf'', numPages = 2\<rparr> \<and>
   \<not> isl (page_text demo_env \<lparr>pdf_source = ''blob:doc.pdf'', numPages = 2\<rparr> 1) \<and>
   \<not> isl (page_text demo_env \<lparr>pdf_source = ''blob:doc.pdf'', numPages = 2\<rparr> 2) \<and>
   fst (processPDF demo_env doc_pdf initial_state) =
     Inr ''Page 1:\<newline>Lorem\<newline>\<newline>Page 2:\<newline>Lorem\<newline>\<newline>''"
proof -
  let ?doc = "\<lparr>pdf_source = ''blob:doc.pdf'', numPages = 2\<rparr>"
  have d: "getDocument demo_env (createObjectURL demo_env doc_pdf) = Inr ?doc"
    by (simp add: demo_env_def doc_pdf_def)
  have t: "page_text demo_env ?doc j = Inr ''Lorem''" for j
    by (simp add: page_text_def page_image_def demo_env_def)
  have p: "\<forall>j. 1 \<le> j \<and> j \<le> numPages ?doc \<longrightarrow> \<not> isl (page_text demo_env ?doc j)"
    by (simp add: t)
  have n: "nat_toString (Suc 0) = ''1''" "nat_toString 2 = ''2''"
    by code_simp+
  have r: "[Suc 0..<3] = [Suc 0, 2]"
    by code_simp
  show ?thesis
    using d p processPDF_pages_in_order [OF d p, of initial_state]
    by (simp add: t n r)
qed

text \<open>
  C7. For a PDF that opens but has a page whose rasterize or recognize step fails,
  \<open>processPDF\<close> throws, and the loop over the queue adds for it the block with the fixed
  failure message and nothing else: the text of the pages recognized before the failure
  is dropped. In a run that is not aborted this is the file's block in the final report.
\<close>

theorem processFiles_page_failure_fails_document:
  assumes "file_type f = ''application/pdf''"
    and "getDocument env (createObjectURL env f) = Inr doc"
    and "1 \<le> j" and "j \<le> numPages doc" and "isl (page_text env doc j)"
  shows "isl (fst (processPDF env f st0))
         \<and> fst (files_loop env (before @ f # after) combinedResult st1) =
             combinedResult @ report env before
             @ ''File: '' @ file_name f @ ''\<newline>\<newline>''
             @ ''Error: Unable to process this file. It may be corrupted or in an unsupported format.''
             @ ''\<newline>\<newline>''
             @ report env after
         \<and> (resolved (createWorker env) \<and> resolved (loadLanguage env lang) \<and>
            resolved (initialize env lang) \<longrightarrow>
              results (snd (processFiles env (before @ f # after) lang st)) =
                report env before
                @ ''File: '' @ file_name f @ ''\<newline>\<newline>''
                @ ''Error: Unable to process this file. It may be corrupted or in an unsupported format.''
                @ ''\<newline>\<newline>''
                @ report env after)"
proof -
  have "j \<in> set [1..<Suc (numPages doc)]"
    using assms(3,4) by auto
  then have failed: "isl (pages_text env doc [1..<Suc (numPages doc)])"
    using assms(5) by (rule pages_text_fails)
  then have thrown: "isl (fst (processPDF env f st0))"
    using assms(2) by (simp add: processPDF_result)
  from failed have "isl (file_result env f)"
    using assms(1,2) by (simp add: file_result_def)
  then have "file_body env f = failure_message"
    by (cases "file_result env f") (simp_all add: file_body_def)
  then have "report env (before @ f # after) =
      report env before @ file_block f failure_message @ report env after"
    by (simp add: report_append report_Cons)
  with thrown show ?thesis
    using processFiles_completed(1) [of env lang "before @ f # after" st]
      files_loop_result [of env "before @ f # after" combinedResult st1]
    by (simp add: file_block_def failure_message_def)
qed

theorem processFiles_page_failure_fails_document_witness:
  "resolved (createWorker demo_env) \<and> resolved (loadLanguage demo_env ''eng'') \<and>
   resolved (initialize demo_env ''eng'') \<and>
   file_type torn_pdf = ''application/pdf'' \<and>
   getDocument demo_env (createObjectURL demo_env torn_pdf) =
     Inr \<lparr>pdf_source = ''blob:torn.pdf'', numPages = 3\<rparr> \<and>
   \<not> isl (page_text demo_env \<lparr>pdf_source = ''blob:torn.pdf'', numPages = 3\<rparr> 1) \<and>
   isl (page_text demo_env \<lparr>pdf_source = ''blob:torn.pdf'', numPages = 3\<rparr> 2) \<and>
   results (snd (processFiles demo_env ([] @ torn_pdf # [good_png]) ''eng'' initial_state)) =
     ''File: torn.pdf\<newline>\<newline>''
     @ ''Error: Unable to process this file. It may be corrupted or in an unsupported format.''
     @ ''\<newline>\<newline>''
     @ report demo_env [good_png]"
proof -
  let ?doc = "\<lparr>pdf_source = ''blob:torn.pdf'', numPages = 3\<rparr>"
  have h: "resolved (createWorker demo_env)" "resolved (loadLanguage demo_env ''eng'')"
    "resolved (initialize demo_env ''eng'')"
    by (simp_all add: demo_env_def resolved_def known_language_def)
  have ty: "file_type torn_pdf = ''application/pdf''"
    by (simp add: torn_pdf_def)
  have d: "getDocument demo_env (createObjectURL demo_env torn_pdf) = Inr ?doc"
    by (simp add: demo_env_def torn_pdf_def)
  have ok: "\<not> isl (page_text demo_env ?doc 1)"
    by (simp add: page_text_def page_image_def demo_env_def)
  have bad: "isl (page_text demo_env ?doc 2)"
    by (simp add: page_text_def page_image_def demo_env_def)
  have j: "(1::nat) \<le> 2" "2 \<le> numPages ?doc"
    by simp_all
  show ?thesis
    using h ty d ok bad
      processFiles_page_failure_fails_document
        [OF ty d j bad, where before = "[]" and after = "[good_png]" and lang = "''eng''"
          and st = initial_state and combinedResult = "[]" and ?st1.0 = initial_state
          and ?st0.0 = initial_state]
    by (simp add: torn_pdf_def report_def)
qed

section \<open>The choice of the path\<close>

text \<open>
  C9. The processing of a file is that of \<open>processPDF\<close> when its declared type is
  \<open>application/pdf\<close>: it starts from the same state, opens the document, and never passes
  the file itself to the engine. For the types \<open>image/tiff\<close>, \<open>image/png\<close> and \<open>image/jpeg\<close> it
  is that of \<open>processImage\<close>: its only call is the recognition of the file itself, whose
  outcome is the file's.
\<close>

theorem process_file_routes_by_type:
  "(file_type f = ''application/pdf'' \<longrightarrow>
      process_file env f st = processPDF env f st \<and>
      (\<exists>tr. calls (snd (process_file env f st)) =
               calls st @ CreateObjectURL f # GetDocument (createObjectURL env f) # tr
           \<and> filter is_direct tr = []))
   \<and> (file_type f = ''image/tiff'' \<or> file_type f = ''image/png'' \<or> file_type f = ''image/jpeg'' \<longrightarrow>
        process_file env f st = processImage env f st \<and>
        fst (process_file env f st) = snd (recognize env (FileImage f)) \<and>
        calls (snd (process_file env f st)) = calls st @ [Recognize (FileImage f)])"
proof -
  have "file_type f = ''application/pdf'' \<Longrightarrow> process_file env f st = processPDF env f st"
    by (simp add: process_file_def)
  moreover have "\<exists>tr. calls (snd (processPDF env f st)) =
               calls st @ CreateObjectURL f # GetDocument (createObjectURL env f) # tr
           \<and> filter is_direct tr = []"
    using processPDF_grows [of env f st] by blast
  moreover have "file_type f = ''image/tiff'' \<or> file_type f = ''image/png'' \<or> file_type f = ''image/jpeg''
      \<Longrightarrow> process_file env f st = processImage env f st"
    by (auto simp add: process_file_def)
  ultimately show ?thesis
    by (auto simp del: filter_empty_conv)
qed

theorem process_file_routes_by_type_witness:
  "file_type doc_pdf = ''application/pdf'' \<and>
   process_file demo_env doc_pdf initial_state = processPDF demo_env doc_pdf initial_state \<and>
   file_type good_png = ''image/png'' \<and>
   calls (snd (process_file demo_env good_png initial_state)) = [Recognize (FileImage good_png)]"
proof -
  have p: "file_type doc_pdf = ''application/pdf''"
    by (simp add: doc_pdf_def)
  have g: "file_type good_png = ''image/png''"
    by (simp add: good_png_def)
  show ?thesis
    using p g process_file_routes_by_type [of doc_pdf demo_env initial_state]
      process_file_routes_by_type [of good_png demo_env initial_state]
    by (simp add: initial_state_def)
qed

section \<open>Scenarios of the specification, run on the model\<close>

lemma scenario_image:
  "results (snd (processFiles demo_env [good_png] ''eng'' initial_state)) =
     ''File: good.png\<newline>\<newline>Hello\<newline>\<newline>''"
  by code_simp

lemma scenario_good_then_corrupt:
  "results (snd (processFiles demo_env [good_png, corrupt_pdf] ''eng'' initial_state)) =
     ''File: good.png\<newline>\<newline>Hello\<newline>\<newline>File: corrupt.pdf\<newline>\<newline>Error: Unable to process this file. It may be corrupted or in an unsupported format.\<newline>\<newline>''"
  by code_simp

lemma scenario_unknown_language:
  "calls (snd (processFiles demo_env [good_png] ''deu'' initial_state)) =
     [CreateWorker, LoadLanguage ''deu'', ConsoleError ''OCR Error:'' (Exn ''load failed''),
      Terminate]"
  by code_simp

end
